theory Spec2Isabelle
  imports Main "HOL-Library.Word"
begin

unbundle bit_operations_syntax

type_synonym u8 = "8 word"
type_synonym u16 = "16 word"
type_synonym u32 = "32 word"

section \<open>RP2040 measurement probe: rp2040-glitching/rpi-program/main.cpp\<close>

subsection \<open>The unrolled workload (macros add1 .. add256)\<close>

text \<open>
  The three instructions of the inline assembly block of \<open>unrolled_loop\<close>:
  \<^verbatim>\<open>ldr r0, =k\<close>, \<^verbatim>\<open>add r0, r0, #k\<close> and \<^verbatim>\<open>str r0, %[cnt]\<close>, where
  \<open>%[cnt]\<close> is the memory operand bound to the local variable \<open>counter\<close>.
\<close>

datatype insn = LDR_r0 u32 | ADD_r0_r0 u32 | STR_r0_cnt

text \<open>
  The macros are string concatenations of instruction text, so each one is the
  instruction list of its expansion.
\<close>

definition add1 :: "insn list" where
  "add1 = [ADD_r0_r0 1]"

definition add2 :: "insn list" where
  "add2 = add1 @ add1"

definition add4 :: "insn list" where
  "add4 = add2 @ add2"

definition add8 :: "insn list" where
  "add8 = add4 @ add4"

definition add16 :: "insn list" where
  "add16 = add8 @ add8"

definition add32 :: "insn list" where
  "add32 = add16 @ add16"

definition add64 :: "insn list" where
  "add64 = add32 @ add32"

definition add128 :: "insn list" where
  "add128 = add64 @ add64"

definition add256 :: "insn list" where
  "add256 = add128 @ add128"

text \<open>
  One instruction acts on the pair (register r0, memory cell of \<open>counter\<close>).
  Register arithmetic is 32-bit and wraps.
\<close>

fun exec_insn :: "insn \<Rightarrow> u32 \<times> u32 \<Rightarrow> u32 \<times> u32" where
  "exec_insn (LDR_r0 k) (r, cnt) = (k, cnt)"
| "exec_insn (ADD_r0_r0 k) (r, cnt) = (r + k, cnt)"
| "exec_insn STR_r0_cnt (r, cnt) = (r, r)"

fun exec_insns :: "insn list \<Rightarrow> u32 \<times> u32 \<Rightarrow> u32 \<times> u32" where
  "exec_insns [] rc = rc"
| "exec_insns (i # is) rc = exec_insns is (exec_insn i rc)"

subsection \<open>Machine state and observable events\<close>

text \<open>
  What an external observer (logic analyser, host) can see of one run, in program
  order: the three PRIMASK instructions, every \<open>gpio_put\<close>, and every instruction
  of the workload.
\<close>

datatype rp_event =
    MRS_PRIMASK
  | CPSID_i
  | MSR_PRIMASK u32
  | GPIO_PUT nat bool
  | EXEC insn

text \<open>
  \<open>PRIMASK\<close> is the one-bit interrupt mask of the Cortex-M0+ (bit 0 of the special
  register; the other bits read as zero). \<open>gpio_out\<close> is the output level of each
  GPIO. \<open>cout_buf\<close> holds the characters written to \<open>std::cout\<close> and not yet
  flushed, \<open>usb_tx\<close> the characters already flushed to the USB console.
\<close>

record rp2040 =
  PRIMASK :: bool
  gpio_out :: "nat \<Rightarrow> bool"
  r0 :: u32
  cout_buf :: string
  usb_tx :: string
  events :: "rp_event list"

definition emit :: "rp_event list \<Rightarrow> rp2040 \<Rightarrow> rp2040" where
  "emit es s = s\<lparr>events := events s @ es\<rparr>"

text \<open>\<open>gpio_put(gpio, value)\<close> of the SDK: drive one output to a level.\<close>

definition gpio_put :: "nat \<Rightarrow> bool \<Rightarrow> rp2040 \<Rightarrow> rp2040" where
  "gpio_put pin v s = emit [GPIO_PUT pin v] (s\<lparr>gpio_out := (gpio_out s)(pin := v)\<rparr>)"

subsection \<open>save_and_disable_interrupts, restore_interrupts\<close>

text \<open>
  \<^verbatim>\<open>MRS %0, PRIMASK; CPSID i\<close>: the returned snapshot is the register as read
  (0 or 1); afterwards interrupts are masked.
\<close>

definition save_and_disable_interrupts :: "rp2040 \<Rightarrow> u32 \<times> rp2040" where
  "save_and_disable_interrupts s =
     (let primask = (if PRIMASK s then 1 else 0);
          s = emit [MRS_PRIMASK] s;
          s = emit [CPSID_i] (s\<lparr>PRIMASK := True\<rparr>)
      in (primask, s))"

text \<open>\<^verbatim>\<open>MSR PRIMASK, %0\<close>: bit 0 of the operand becomes the mask.\<close>

definition restore_interrupts :: "u32 \<Rightarrow> rp2040 \<Rightarrow> rp2040" where
  "restore_interrupts primask s =
     emit [MSR_PRIMASK primask] (s\<lparr>PRIMASK := bit primask 0\<rparr>)"

subsection \<open>unrolled_loop\<close>

text \<open>
  The inline assembly block: the instructions run in order on r0 and on the memory
  operand; r0 is clobbered, the memory operand is the block's output.
\<close>

definition exec_asm :: "insn list \<Rightarrow> u32 \<Rightarrow> rp2040 \<Rightarrow> u32 \<times> rp2040" where
  "exec_asm is cnt s =
     (let (r, c) = exec_insns is (r0 s, cnt)
      in (c, emit (map EXEC is) (s\<lparr>r0 := r\<rparr>)))"

text \<open>
  \<open>led\<close> is \<open>PICO_DEFAULT_LED_PIN\<close>, a constant of the board header, which is not
  part of the sources; it is a parameter here. The function returns \<open>int\<close>, so the
  \<open>uint32_t\<close> counter is read as a signed 32-bit value on return.
\<close>

definition unrolled_loop :: "nat \<Rightarrow> rp2040 \<Rightarrow> int \<times> rp2040" where
  "unrolled_loop led s =
     (let counter = 0;
          s = gpio_put led True s;
          s = gpio_put 0 True s;
          (counter, s) = exec_asm ([LDR_r0 0] @ add256 @ [STR_r0_cnt]) counter s;
          s = gpio_put 0 False s;
          s = gpio_put led False s
      in (sint counter, s))"

subsection \<open>The command loop of main\<close>

text \<open>Decimal output of \<open>operator<<(int)\<close>.\<close>

definition digit_char :: "nat \<Rightarrow> char" where
  "digit_char d = char_of (of_char (CHR ''0'') + d)"

fun show_nat :: "nat \<Rightarrow> string" where
  "show_nat n = (if n < 10 then [digit_char n] else show_nat (n div 10) @ [digit_char (n mod 10)])"

declare show_nat.simps [simp del]

definition show_int :: "int \<Rightarrow> string" where
  "show_int i = (if i < 0 then CHR ''-'' # show_nat (nat (- i)) else show_nat (nat i))"

definition newline :: char where
  "newline = CHR 0x0A"

definition cout_put :: "string \<Rightarrow> rp2040 \<Rightarrow> rp2040" where
  "cout_put str s = s\<lparr>cout_buf := cout_buf s @ str\<rparr>"

definition cout_flush :: "rp2040 \<Rightarrow> rp2040" where
  "cout_flush s = s\<lparr>usb_tx := usb_tx s @ cout_buf s, cout_buf := []\<rparr>"

text \<open>\<open>std::endl\<close>: a newline, then a flush.\<close>

definition cout_endl :: "rp2040 \<Rightarrow> rp2040" where
  "cout_endl s = cout_flush (cout_put [newline] s)"

text \<open>
  \<open>std::getline(std::cin, line)\<close> on the characters received so far: the text up
  to the first newline, which is consumed and not stored. On the USB console the
  read blocks until a newline arrives, so without one there is no line (\<open>None\<close>).
\<close>

fun getline :: "string \<Rightarrow> (string \<times> string) option" where
  "getline [] = None"
| "getline (c # cs) =
     (if c = newline then Some ([], cs)
      else (case getline cs of None \<Rightarrow> None | Some (line, rest) \<Rightarrow> Some (c # line, rest)))"

text \<open>Lines 92 and 93: the reply for a counter value, then an explicit flush.\<close>

definition report :: "int \<Rightarrow> rp2040 \<Rightarrow> rp2040" where
  "report counter s =
     (let s = cout_put ''XXX'' s;
          s = cout_put (show_int counter) s;
          s = cout_put ''YYY'' s;
          s = cout_put (show_int counter) s;
          s = cout_put ''ZZZ'' s;
          s = cout_endl s
      in cout_flush s)"

text \<open>
  The body of \<open>while (true)\<close> after \<open>getline\<close> has returned \<open>line\<close> (lines 89 to 93).
\<close>

definition measure_and_report :: "nat \<Rightarrow> string \<Rightarrow> rp2040 \<Rightarrow> rp2040" where
  "measure_and_report led line s =
     (let (primask, s) = save_and_disable_interrupts s;
          (counter, s) = unrolled_loop led s;
          s = restore_interrupts primask s
      in report counter s)"

text \<open>
  The loop of \<open>main\<close> (lines 86 to 94); \<open>s\<close> is the state in which the loop is
  entered, after the bring-up of the peripherals and the two banner lines. The loop
  never exits: \<open>main_loop led s inp\<close> is the state in which the program waits in
  \<open>getline\<close> once it has consumed every complete line of the received characters
  \<open>inp\<close>.
\<close>

function main_loop :: "nat \<Rightarrow> rp2040 \<Rightarrow> string \<Rightarrow> rp2040" where
  "main_loop led s inp =
     (case getline inp of
        None \<Rightarrow> s
      | Some (line, rest) \<Rightarrow> main_loop led (measure_and_report led line s) rest)"
  by pat_completeness auto
termination
proof (relation "measure (\<lambda>(led, s, inp). length inp)")
  show "wf (measure (\<lambda>(led, s, inp). length inp))"
    by simp
next
  fix led :: nat and s :: rp2040 and inp x2 line rest
  assume g: "getline inp = Some x2" and x2: "(line, rest) = x2"
  have shorter: "getline cs = Some (l, r) \<Longrightarrow> length r < length cs" for cs l r
    by (induction cs arbitrary: l) (auto split: if_splits option.splits)
  from g x2 have "length rest < length inp"
    by (auto dest: shorter)
  then show "((led, measure_and_report led line s, rest), (led, s, inp))
      \<in> measure (\<lambda>(led, s, inp). length inp)"
    by simp
qed

declare main_loop.simps [simp del]

subsection \<open>Observations on a run\<close>

text \<open>Everything written to \<open>std::cout\<close> so far, sent or still buffered.\<close>

definition serial_out :: "rp2040 \<Rightarrow> string" where
  "serial_out s = usb_tx s @ cout_buf s"

text \<open>The events of one pass through the loop body, without those before it.\<close>

definition cycle_events :: "nat \<Rightarrow> string \<Rightarrow> rp2040 \<Rightarrow> rp_event list" where
  "cycle_events led line s = drop (length (events s)) (events (measure_and_report led line s))"

text \<open>\<open>a\<close> occurs in the list and \<open>b\<close> occurs after the first \<open>a\<close>.\<close>

definition occurs_before :: "'a \<Rightarrow> 'a \<Rightarrow> 'a list \<Rightarrow> bool" where
  "occurs_before a b xs \<longleftrightarrow> b \<in> set (drop 1 (dropWhile (\<lambda>x. x \<noteq> a) xs))"

text \<open>The events that read or write the interrupt mask.\<close>

fun is_primask_event :: "rp_event \<Rightarrow> bool" where
  "is_primask_event MRS_PRIMASK = True"
| "is_primask_event CPSID_i = True"
| "is_primask_event (MSR_PRIMASK v) = True"
| "is_primask_event (GPIO_PUT pin v) = False"
| "is_primask_event (EXEC i) = False"

text \<open>
  A concrete state for runs on an example: interrupts enabled, every output low,
  nothing written yet.
\<close>

definition rp2040_idle :: rp2040 where
  "rp2040_idle =
     \<lparr>PRIMASK = False, gpio_out = (\<lambda>pin. False), r0 = 0, cout_buf = [], usb_tx = [],
      events = []\<rparr>"

text \<open>
  The pattern \<^verbatim>\<open>^XXX([0-9]+)YYY\1ZZZ$\<close> of the specification, on a reply without
  its newline: the captured group when the text matches.
\<close>

definition is_digit :: "char \<Rightarrow> bool" where
  "is_digit c \<longleftrightarrow> c \<in> set ''0123456789''"

definition match_reply :: "string \<Rightarrow> string option" where
  "match_reply str =
     (if take 3 str = ''XXX'' then
        (let grp = takeWhile is_digit (drop 3 str);
             rest = dropWhile is_digit (drop 3 str)
         in if grp \<noteq> [] \<and> rest = ''YYY'' @ grp @ ''ZZZ'' then Some grp else None)
      else None)"

section \<open>STM8L bootloader-path probe: stm8l/profiling/check_empty.c\<close>

subsection \<open>Pins and registers\<close>

definition TRIG_PIN :: u8 where
  "TRIG_PIN = push_bit 1 1"

definition SUCCESS_PIN :: u8 where
  "SUCCESS_PIN = push_bit 4 1"

definition EXPECTED_PIN :: u8 where
  "EXPECTED_PIN = push_bit 5 1"

text \<open>
  The register macros come from the header \<open>stm8l.h\<close>, which is not part of the
  sources. Each macro is a memory-mapped byte; the addresses are a parameter of the
  program.
\<close>

record stm8l_h =
  CLK_PCKENR1 :: u16
  PB_DDR :: u16
  PB_CR1 :: u16
  PB_CR2 :: u16
  PB_ODR :: u16

text \<open>
  What the program relies on: \<open>PB_ODR\<close> is the byte at \<open>0x5005\<close> that the assembly
  sets bits in, and the five registers and the two probed bytes are different
  locations.
\<close>

definition stm8l_h_ok :: "stm8l_h \<Rightarrow> bool" where
  "stm8l_h_ok h \<longleftrightarrow>
     PB_ODR h = 0x5005 \<and>
     distinct [CLK_PCKENR1 h, PB_DDR h, PB_CR1 h, PB_CR2 h, PB_ODR h, 0x8000, 0x480B]"

subsection \<open>Machine state\<close>

text \<open>Every access to memory, in program order.\<close>

datatype bus_event = Load u16 | Store u16 u8

text \<open>
  The accumulator, the zero flag, the interrupt mask of the condition code register
  (set by \<open>sim\<close>), the address space, and the log of accesses. Of the condition
  flags only Z is kept: it is the only one the program tests.
\<close>

record stm8 =
  reg_A :: u8
  cc_Z :: bool
  cc_I :: bool
  mem :: "u16 \<Rightarrow> u8"
  bus :: "bus_event list"

definition read8 :: "u16 \<Rightarrow> stm8 \<Rightarrow> u8 \<times> stm8" where
  "read8 a s = (mem s a, s\<lparr>bus := bus s @ [Load a]\<rparr>)"

definition write8 :: "u16 \<Rightarrow> u8 \<Rightarrow> stm8 \<Rightarrow> stm8" where
  "write8 a v s = s\<lparr>mem := (mem s)(a := v), bus := bus s @ [Store a v]\<rparr>"

text \<open>The C statements \<open>REG = v\<close> and \<open>REG |= m\<close> on a volatile byte.\<close>

definition assign :: "u16 \<Rightarrow> u8 \<Rightarrow> stm8 \<Rightarrow> stm8" where
  "assign a v s = write8 a v s"

definition or_assign :: "u16 \<Rightarrow> u8 \<Rightarrow> stm8 \<Rightarrow> stm8" where
  "or_assign a m s = (let (v, s) = read8 a s in write8 a (v OR m) s)"

subsection \<open>Instructions\<close>

definition sim :: "stm8 \<Rightarrow> stm8" where
  "sim s = s\<lparr>cc_I := True\<rparr>"

definition ld_A :: "u16 \<Rightarrow> stm8 \<Rightarrow> stm8" where
  "ld_A a s = (let (v, s) = read8 a s in s\<lparr>reg_A := v, cc_Z := (v = 0)\<rparr>)"

definition cp_A :: "u8 \<Rightarrow> stm8 \<Rightarrow> stm8" where
  "cp_A k s = s\<lparr>cc_Z := (reg_A s - k = 0)\<rparr>"

definition bset :: "u16 \<Rightarrow> nat \<Rightarrow> stm8 \<Rightarrow> stm8" where
  "bset a n s = (let (v, s) = read8 a s in write8 a (set_bit n v) s)"

definition nop :: "stm8 \<Rightarrow> stm8" where
  "nop s = s"

subsection \<open>The assembly block, one function per label\<close>

definition asm_done :: "stm8 \<Rightarrow> stm8" where
  "asm_done s = nop s"

text \<open>\<open>enter_app\<close> falls through into \<open>asm_done\<close>.\<close>

definition enter_app :: "stm8 \<Rightarrow> stm8" where
  "enter_app s = asm_done (bset 0x5005 5 s)"

text \<open>\<open>rdp_check\<close> ends with \<open>jra asm_done\<close>.\<close>

definition rdp_check :: "stm8 \<Rightarrow> stm8" where
  "rdp_check s = asm_done (bset 0x5005 4 s)"

definition bootl_check :: "stm8 \<Rightarrow> stm8" where
  "bootl_check s =
     (let s = ld_A 0x480B s;
          s = cp_A 0x55 s
      in if cc_Z s then rdp_check s else enter_app s)"

text \<open>From \<open>sim\<close> to the first taken jump.\<close>

definition asm_block :: "stm8 \<Rightarrow> stm8" where
  "asm_block s =
     (let s = sim s;
          s = ld_A 0x8000 s;
          s = cp_A 0x82 s
      in if cc_Z s then bootl_check s
         else (let s = cp_A 0xAC s
               in if cc_Z s then bootl_check s else rdp_check s))"

subsection \<open>main\<close>

text \<open>
  \<open>always_success\<close> says whether the build defines \<open>ALWAYS_SUCCESS\<close>. The program
  ends in \<open>for (;;);\<close>, which changes nothing: the result is the state in which
  the program idles for ever.
\<close>

definition main_stm8l :: "stm8l_h \<Rightarrow> bool \<Rightarrow> stm8 \<Rightarrow> stm8" where
  "main_stm8l h always_success s =
     (let s = assign (CLK_PCKENR1 h) 0xFF s;
          s = or_assign (PB_DDR h) (TRIG_PIN OR SUCCESS_PIN OR EXPECTED_PIN) s;
          s = or_assign (PB_CR1 h) (TRIG_PIN OR SUCCESS_PIN OR EXPECTED_PIN) s;
          s = or_assign (PB_CR2 h) (TRIG_PIN OR SUCCESS_PIN OR EXPECTED_PIN) s;
          s = or_assign (PB_ODR h) TRIG_PIN s;
          s = asm_block s
      in if always_success then bset 0x5005 4 s else s)"

subsection \<open>Reading pin edges off the access log\<close>

text \<open>
  \<open>pin_rises a n i v es\<close>: the positions in the log \<open>es\<close> (counted from \<open>i\<close>) of the
  stores that take bit \<open>n\<close> of the byte at \<open>a\<close> from 0 to 1, when the byte holds \<open>v\<close>
  before \<open>es\<close>.
\<close>

fun pin_rises :: "u16 \<Rightarrow> nat \<Rightarrow> nat \<Rightarrow> u8 \<Rightarrow> bus_event list \<Rightarrow> nat list" where
  "pin_rises a n i v [] = []"
| "pin_rises a n i v (Load b # es) = pin_rises a n (Suc i) v es"
| "pin_rises a n i v (Store b w # es) =
     (if b = a
      then (if \<not> bit v n \<and> bit w n then [i] else []) @ pin_rises a n (Suc i) w es
      else pin_rises a n (Suc i) v es)"

text \<open>The positions of the loads from one of the addresses \<open>as\<close>.\<close>

fun load_positions :: "u16 list \<Rightarrow> nat \<Rightarrow> bus_event list \<Rightarrow> nat list" where
  "load_positions as i [] = []"
| "load_positions as i (Load b # es) =
     (if b \<in> set as then [i] else []) @ load_positions as (Suc i) es"
| "load_positions as i (Store b w # es) = load_positions as (Suc i) es"

text \<open>The addresses loaded from, in order.\<close>

fun loads :: "bus_event list \<Rightarrow> u16 list" where
  "loads [] = []"
| "loads (Load b # es) = b # loads es"
| "loads (Store b w # es) = loads es"

text \<open>The accesses of one run of main, without those logged before it.\<close>

definition run_events :: "stm8l_h \<Rightarrow> bool \<Rightarrow> stm8 \<Rightarrow> bus_event list" where
  "run_events h always_success s = drop (length (bus s)) (bus (main_stm8l h always_success s))"

text \<open>
  For runs on an example: the register addresses of the STM8L15x memory map, and a
  state after reset with all registers zero, \<open>b\<close> at \<open>0x8000\<close> and \<open>ob\<close> at \<open>0x480B\<close>.
\<close>

definition stm8l15x_h :: stm8l_h where
  "stm8l15x_h =
     \<lparr>CLK_PCKENR1 = 0x50C3, PB_DDR = 0x5007, PB_CR1 = 0x5008, PB_CR2 = 0x5009,
      PB_ODR = 0x5005\<rparr>"

definition stm8_reset :: "u8 \<Rightarrow> u8 \<Rightarrow> stm8" where
  "stm8_reset b ob =
     \<lparr>reg_A = 0, cc_Z = False, cc_I = False,
      mem = (\<lambda>a. 0)(0x8000 := b, 0x480B := ob), bus = []\<rparr>"

section \<open>Properties of the RP2040 probe\<close>

subsection \<open>The workload\<close>

lemma add2_rep: "add2 = replicate 2 (ADD_r0_r0 1)"
  by (simp add: add2_def add1_def numeral_2_eq_2)

lemma add4_rep: "add4 = replicate 4 (ADD_r0_r0 1)"
  unfolding add4_def add2_rep by (simp flip: replicate_add)

lemma add8_rep: "add8 = replicate 8 (ADD_r0_r0 1)"
  unfolding add8_def add4_rep by (simp flip: replicate_add)

lemma add16_rep: "add16 = replicate 16 (ADD_r0_r0 1)"
  unfolding add16_def add8_rep by (simp flip: replicate_add)

lemma add32_rep: "add32 = replicate 32 (ADD_r0_r0 1)"
  unfolding add32_def add16_rep by (simp flip: replicate_add)

lemma add64_rep: "add64 = replicate 64 (ADD_r0_r0 1)"
  unfolding add64_def add32_rep by (simp flip: replicate_add)

lemma add128_rep: "add128 = replicate 128 (ADD_r0_r0 1)"
  unfolding add128_def add64_rep by (simp flip: replicate_add)

lemma add256_rep: "add256 = replicate 256 (ADD_r0_r0 1)"
  unfolding add256_def add128_rep by (simp flip: replicate_add)

lemma exec_insns_append: "exec_insns (xs @ ys) rc = exec_insns ys (exec_insns xs rc)"
  by (induction xs arbitrary: rc) simp_all

lemma exec_insns_adds: "exec_insns (replicate n (ADD_r0_r0 k)) (r, c) = (r + of_nat n * k, c)"
  by (induction n arbitrary: r) (simp_all add: algebra_simps)

lemma exec_workload:
  "exec_insns ([LDR_r0 0] @ add256 @ [STR_r0_cnt]) (r, c) = (256, 256)"
  by (simp add: add256_rep exec_insns_append exec_insns_adds)

lemma show_int_256: "show_int 256 = ''256''"
  by code_simp

lemma exec_asm_workload:
  "exec_asm ([LDR_r0 0] @ add256 @ [STR_r0_cnt]) c s =
     (256, s\<lparr>r0 := 256, events := events s @ [EXEC (LDR_r0 0)] @ replicate 256 (EXEC (ADD_r0_r0 1)) @ [EXEC STR_r0_cnt]\<rparr>)"
  unfolding exec_asm_def exec_workload
  by (simp add: emit_def add256_rep)

lemma unrolled_loop_eq:
  "unrolled_loop led s =
     (256, s\<lparr>gpio_out := (gpio_out s)(0 := False, led := False), r0 := 256,
             events := events s @ [GPIO_PUT led True, GPIO_PUT 0 True, EXEC (LDR_r0 0)]
               @ replicate 256 (EXEC (ADD_r0_r0 1))
               @ [EXEC STR_r0_cnt, GPIO_PUT 0 False, GPIO_PUT led False]\<rparr>)"
proof -
  have g: "(gpio_out s)(led := True, 0 := True, 0 := False, led := False) = (gpio_out s)(0 := False, led := False)"
    by (auto simp: fun_eq_iff)
  show ?thesis
    unfolding unrolled_loop_def Let_def exec_asm_workload
    by (simp add: gpio_put_def emit_def g)
qed

subsection \<open>One pass through the loop body\<close>

lemma measure_and_report_eq:
  "measure_and_report led line s =
     s\<lparr>gpio_out := (gpio_out s)(0 := False, led := False), r0 := 256,
       cout_buf := [],
       usb_tx := usb_tx s @ cout_buf s @ ''XXX256YYY256ZZZ'' @ [newline],
       events := events s @ [MRS_PRIMASK, CPSID_i, GPIO_PUT led True, GPIO_PUT 0 True, EXEC (LDR_r0 0)]
               @ replicate 256 (EXEC (ADD_r0_r0 1))
               @ [EXEC STR_r0_cnt, GPIO_PUT 0 False, GPIO_PUT led False,
                  MSR_PRIMASK (if PRIMASK s then 1 else 0)]\<rparr>"
  unfolding measure_and_report_def save_and_disable_interrupts_def Let_def report_def
  by (simp add: unrolled_loop_eq restore_interrupts_def emit_def cout_put_def cout_endl_def cout_flush_def show_int_256)

lemma cycle_events_eq:
  "cycle_events led line s =
     [MRS_PRIMASK, CPSID_i, GPIO_PUT led True, GPIO_PUT 0 True, EXEC (LDR_r0 0)]
       @ replicate 256 (EXEC (ADD_r0_r0 1))
       @ [EXEC STR_r0_cnt, GPIO_PUT 0 False, GPIO_PUT led False,
          MSR_PRIMASK (if PRIMASK s then 1 else 0)]"
  by (simp add: cycle_events_def measure_and_report_eq)

lemma report_out:
  "serial_out (report c s) = serial_out s @ ''XXX'' @ show_int c @ ''YYY'' @ show_int c @ ''ZZZ'' @ [newline]"
  "cout_buf (report c s) = []"
  by (simp_all add: report_def serial_out_def cout_put_def cout_endl_def cout_flush_def)

lemma serial_out_cycle:
  "serial_out (measure_and_report led line s) = serial_out s @ ''XXX256YYY256ZZZ'' @ [newline]"
  by (simp add: measure_and_report_eq serial_out_def)

subsection \<open>The loop over the received characters\<close>

lemma serial_out_main_loop:
  "serial_out (main_loop led s inp) =
     serial_out s @ concat (replicate (count_list inp newline) (''XXX256YYY256ZZZ'' @ [newline]))"
proof (induction led s inp rule: main_loop.induct)
  case (1 led s inp)
  show ?case
  proof (cases "getline inp")
    case None
    have "getline cs = None \<Longrightarrow> count_list cs newline = 0" for cs
      by (induction cs) (auto split: if_splits option.splits)
    with None show ?thesis
      by (simp add: main_loop.simps)
  next
    case (Some p)
    obtain line rest where p: "p = (line, rest)"
      by (cases p)
    have cnt: "getline cs = Some (l, r) \<Longrightarrow> count_list cs newline = Suc (count_list r newline)" for cs l r
      by (induction cs arbitrary: l) (auto split: if_splits option.splits)
    from Some p have g: "getline inp = Some (line, rest)" by simp
    have "serial_out (main_loop led s inp) = serial_out (main_loop led (measure_and_report led line s) rest)"
      using g by (simp add: main_loop.simps)
    also have "\<dots> = serial_out (measure_and_report led line s)
        @ concat (replicate (count_list rest newline) (''XXX256YYY256ZZZ'' @ [newline]))"
      using "1.IH" [OF g refl] .
    finally show ?thesis
      by (simp add: serial_out_cycle cnt [OF g])
  qed
qed

lemma getline_line: "newline \<notin> set l \<Longrightarrow> getline (l @ newline # rest) = Some (l, rest)"
  by (induction l) auto

lemma cycle_tx:
  "usb_tx (measure_and_report led line s) = usb_tx s @ cout_buf s @ ''XXX256YYY256ZZZ'' @ [newline]"
  "cout_buf (measure_and_report led line s) = []"
  by (simp_all add: measure_and_report_eq)

lemma report_tx:
  "usb_tx (report c s) =
     usb_tx s @ cout_buf s @ ''XXX'' @ show_int c @ ''YYY'' @ show_int c @ ''ZZZ'' @ [newline]"
  by (simp add: report_def cout_put_def cout_endl_def cout_flush_def)

lemma cout_buf_main_loop:
  "cout_buf s = [] \<Longrightarrow> cout_buf (main_loop led s inp) = []"
proof (induction led s inp rule: main_loop.induct)
  case (1 led s inp)
  show ?case
  proof (cases "getline inp")
    case None
    with "1.prems" show ?thesis
      by (simp add: main_loop.simps)
  next
    case (Some p)
    obtain line rest where p: "p = (line, rest)"
      by (cases p)
    from Some p have g: "getline inp = Some (line, rest)"
      by simp
    have "cout_buf (main_loop led (measure_and_report led line s) rest) = []"
      using "1.IH" [OF g refl cycle_tx(2)] .
    with g show ?thesis
      by (simp add: main_loop.simps)
  qed
qed

lemma usb_tx_main_loop:
  assumes "cout_buf s = []"
  shows "usb_tx (main_loop led s inp) =
     usb_tx s @ concat (replicate (count_list inp newline) (''XXX256YYY256ZZZ'' @ [newline]))"
  using serial_out_main_loop [of led s inp] cout_buf_main_loop [OF assms, of led inp] assms
  by (simp add: serial_out_def)

subsection \<open>The reply format\<close>

lemma match_256: "match_reply ''XXX256YYY256ZZZ'' = Some ''256''"
  by (simp add: match_reply_def is_digit_def)

lemma digit_char_is_digit: "d < 10 \<Longrightarrow> is_digit (digit_char d)"
proof -
  assume "d < 10"
  then have "d \<in> {0, 1, 2, 3, 4, 5, 6, 7, 8, 9}"
    by auto
  moreover have "\<forall>k \<in> {0, 1, 2, 3, 4, 5, 6, 7, 8, 9}. is_digit (digit_char k)"
    by code_simp
  ultimately show ?thesis
    by blast
qed

lemma show_nat_digits: "show_nat n \<noteq> [] \<and> (\<forall>c \<in> set (show_nat n). is_digit c)"
proof (induction n rule: show_nat.induct)
  case (1 n)
  show ?case
  proof (cases "n < 10")
    case True
    then show ?thesis
      by (simp add: show_nat.simps [of n] digit_char_is_digit)
  next
    case False
    with 1 show ?thesis
      by (simp add: show_nat.simps [of n] digit_char_is_digit)
  qed
qed

lemma reply_matches_pattern:
  assumes "0 \<le> c"
  shows "match_reply (''XXX'' @ show_int c @ ''YYY'' @ show_int c @ ''ZZZ'') = Some (show_int c)"
proof -
  from assms have si: "show_int c = show_nat (nat c)"
    by (simp add: show_int_def)
  have d: "\<forall>x \<in> set (show_nat (nat c)). is_digit x" and ne: "show_nat (nat c) \<noteq> []"
    using show_nat_digits [of "nat c"] by simp_all
  have y: "\<not> is_digit CHR ''Y''"
    by (simp add: is_digit_def)
  have t: "takeWhile is_digit (show_nat (nat c) @ ''YYY'' @ show_nat (nat c) @ ''ZZZ'') = show_nat (nat c)"
    using d y by (simp add: takeWhile_append2)
  have r: "dropWhile is_digit (show_nat (nat c) @ ''YYY'' @ show_nat (nat c) @ ''ZZZ'')
      = ''YYY'' @ show_nat (nat c) @ ''ZZZ''"
    using d y by (simp add: dropWhile_append2)
  show ?thesis
    using ne t r by (simp add: match_reply_def si)
qed

section \<open>Properties of the STM8L probe\<close>

subsection \<open>Effect of each statement on memory and on the access log\<close>

lemma assign_sel:
  "mem (assign a v s) = (mem s)(a := v)"
  "bus (assign a v s) = bus s @ [Store a v]"
  by (simp_all add: assign_def write8_def)

lemma or_assign_sel:
  "mem (or_assign a m s) = (mem s)(a := mem s a OR m)"
  "bus (or_assign a m s) = bus s @ [Load a, Store a (mem s a OR m)]"
  by (simp_all add: or_assign_def read8_def write8_def)

lemma bset_sel:
  "mem (bset a n s) = (mem s)(a := set_bit n (mem s a))"
  "bus (bset a n s) = bus s @ [Load a, Store a (set_bit n (mem s a))]"
  by (simp_all add: bset_def read8_def write8_def)

lemma pin_masks:
  "TRIG_PIN = 0x02" "SUCCESS_PIN = 0x10" "EXPECTED_PIN = 0x20"
  "TRIG_PIN OR SUCCESS_PIN OR EXPECTED_PIN = 0x32"
  by (simp_all add: TRIG_PIN_def SUCCESS_PIN_def EXPECTED_PIN_def)

lemma asm_block_mem:
  "mem (asm_block s) = (mem s)(0x5005 := set_bit (if (mem s 0x8000 = 0x82 \<or> mem s 0x8000 = 0xAC) \<and> mem s 0x480B \<noteq> 0x55 then 5 else 4) (mem s 0x5005))"
  by (simp add: asm_block_def bootl_check_def rdp_check_def enter_app_def asm_done_def nop_def
      bset_def ld_A_def cp_A_def sim_def read8_def write8_def Let_def)

lemma asm_block_bus:
  "bus (asm_block s) = bus s @ [Load 0x8000]
      @ (if mem s 0x8000 = 0x82 \<or> mem s 0x8000 = 0xAC then [Load 0x480B] else [])
      @ [Load 0x5005, Store 0x5005 (set_bit (if (mem s 0x8000 = 0x82 \<or> mem s 0x8000 = 0xAC) \<and> mem s 0x480B \<noteq> 0x55 then 5 else 4) (mem s 0x5005))]"
  by (simp add: asm_block_def bootl_check_def rdp_check_def enter_app_def asm_done_def nop_def
      bset_def ld_A_def cp_A_def sim_def read8_def write8_def Let_def)

lemma stm8l_h_ok_facts:
  assumes "stm8l_h_ok h"
  shows "PB_ODR h = 0x5005"
    and "CLK_PCKENR1 h \<noteq> PB_DDR h"
    and "CLK_PCKENR1 h \<noteq> PB_CR1 h"
    and "CLK_PCKENR1 h \<noteq> PB_CR2 h"
    and "PB_DDR h \<noteq> CLK_PCKENR1 h"
    and "PB_DDR h \<noteq> PB_CR1 h"
    and "PB_DDR h \<noteq> PB_CR2 h"
    and "PB_CR1 h \<noteq> CLK_PCKENR1 h"
    and "PB_CR1 h \<noteq> PB_DDR h"
    and "PB_CR1 h \<noteq> PB_CR2 h"
    and "PB_CR2 h \<noteq> CLK_PCKENR1 h"
    and "PB_CR2 h \<noteq> PB_DDR h"
    and "PB_CR2 h \<noteq> PB_CR1 h"
    and "CLK_PCKENR1 h \<noteq> 0x5005"
    and "0x5005 \<noteq> CLK_PCKENR1 h"
    and "CLK_PCKENR1 h \<noteq> 0x8000"
    and "0x8000 \<noteq> CLK_PCKENR1 h"
    and "CLK_PCKENR1 h \<noteq> 0x480B"
    and "0x480B \<noteq> CLK_PCKENR1 h"
    and "PB_DDR h \<noteq> 0x5005"
    and "0x5005 \<noteq> PB_DDR h"
    and "PB_DDR h \<noteq> 0x8000"
    and "0x8000 \<noteq> PB_DDR h"
    and "PB_DDR h \<noteq> 0x480B"
    and "0x480B \<noteq> PB_DDR h"
    and "PB_CR1 h \<noteq> 0x5005"
    and "0x5005 \<noteq> PB_CR1 h"
    and "PB_CR1 h \<noteq> 0x8000"
    and "0x8000 \<noteq> PB_CR1 h"
    and "PB_CR1 h \<noteq> 0x480B"
    and "0x480B \<noteq> PB_CR1 h"
    and "PB_CR2 h \<noteq> 0x5005"
    and "0x5005 \<noteq> PB_CR2 h"
    and "PB_CR2 h \<noteq> 0x8000"
    and "0x8000 \<noteq> PB_CR2 h"
    and "PB_CR2 h \<noteq> 0x480B"
    and "0x480B \<noteq> PB_CR2 h"
  using assms by (auto simp: stm8l_h_ok_def)

lemma main_odr:
  assumes "stm8l_h_ok h"
  shows "mem (main_stm8l h False s) 0x5005 =
           set_bit (if (mem s 0x8000 = 0x82 \<or> mem s 0x8000 = 0xAC) \<and> mem s 0x480B \<noteq> 0x55 then 5 else 4)
             (mem s 0x5005 OR 0x02)"
  by (simp add: main_stm8l_def Let_def asm_block_mem or_assign_sel assign_sel pin_masks
      stm8l_h_ok_facts [OF assms])

lemma main_always_success:
  "mem (main_stm8l h True s) = (mem (main_stm8l h False s))(0x5005 := set_bit 4 (mem (main_stm8l h False s) 0x5005))"
  "bus (main_stm8l h True s) = bus (main_stm8l h False s) @ [Load 0x5005, Store 0x5005 (set_bit 4 (mem (main_stm8l h False s) 0x5005))]"
  by (simp_all add: main_stm8l_def Let_def bset_sel)

lemma main_cfg:
  assumes "stm8l_h_ok h"
  shows "mem (main_stm8l h b s) (PB_DDR h) = mem s (PB_DDR h) OR 0x32"
    and "mem (main_stm8l h b s) (PB_CR1 h) = mem s (PB_CR1 h) OR 0x32"
    and "mem (main_stm8l h b s) (PB_CR2 h) = mem s (PB_CR2 h) OR 0x32"
  by (simp_all add: main_stm8l_def Let_def asm_block_mem or_assign_sel assign_sel bset_sel pin_masks
      stm8l_h_ok_facts [OF assms])

lemma run_events_eq:
  assumes "stm8l_h_ok h"
  shows "run_events h False s =
     [Store (CLK_PCKENR1 h) 0xFF,
      Load (PB_DDR h), Store (PB_DDR h) (mem s (PB_DDR h) OR 0x32),
      Load (PB_CR1 h), Store (PB_CR1 h) (mem s (PB_CR1 h) OR 0x32),
      Load (PB_CR2 h), Store (PB_CR2 h) (mem s (PB_CR2 h) OR 0x32),
      Load 0x5005, Store 0x5005 (mem s 0x5005 OR 0x02),
      Load 0x8000]
     @ (if mem s 0x8000 = 0x82 \<or> mem s 0x8000 = 0xAC then [Load 0x480B] else [])
     @ [Load 0x5005,
        Store 0x5005 (set_bit (if (mem s 0x8000 = 0x82 \<or> mem s 0x8000 = 0xAC) \<and> mem s 0x480B \<noteq> 0x55 then 5 else 4)
             (mem s 0x5005 OR 0x02))]"
  by (simp add: run_events_def main_stm8l_def Let_def asm_block_mem asm_block_bus or_assign_sel
      assign_sel pin_masks stm8l_h_ok_facts [OF assms])

section \<open>The claims\<close>

text \<open>
  C1. In every measurement cycle the counter register is set to zero right before
  the unrolled sequence, whatever it held; the sequence is exactly 256 instructions
  \<^verbatim>\<open>add r0, r0, #1\<close>, built by doubling one increment; between the rising and the
  falling edge of GPIO 0 nothing runs but the load of zero, the 256 increments and
  the store; the stored counter, which \<open>unrolled_loop\<close> returns, is 256, and 256 is
  the number in the reply.
\<close>

theorem unrolled_loop_counts_256:
  "add256 = replicate 256 (ADD_r0_r0 1)
   \<and> exec_insns ([LDR_r0 0] @ add256 @ [STR_r0_cnt]) (r, c) = (256, 256)
   \<and> fst (unrolled_loop led s) = 256
   \<and> events (snd (unrolled_loop led s)) =
       events s @ [GPIO_PUT led True, GPIO_PUT 0 True]
         @ [EXEC (LDR_r0 0)] @ replicate 256 (EXEC (ADD_r0_r0 1)) @ [EXEC STR_r0_cnt]
         @ [GPIO_PUT 0 False, GPIO_PUT led False]
   \<and> serial_out (measure_and_report led line s) = serial_out s @ ''XXX256YYY256ZZZ'' @ [newline]"
  by (simp add: add256_rep exec_insns_append exec_insns_adds unrolled_loop_eq serial_out_cycle)

text \<open>
  C2. When the loop is entered with nothing left in the output buffer, the
  characters sent to the host grow by one reply line for every newline received,
  each reply being \<open>XXX256YYY256ZZZ\<close> and a newline, and nothing stays behind in
  the buffer; an empty line gets the same reply. From any state, one pass through
  the loop body sends what was buffered and then the reply, and leaves the buffer
  empty. The reply matches the pattern \<^verbatim>\<open>^XXX([0-9]+)YYY\1ZZZ$\<close> with the group
  256; and whatever the counter value, the reply that is sent prints the same
  number twice, which matches the pattern whenever the number is not negative.
\<close>

theorem one_reply_per_line:
  "serial_out (main_loop led s inp) =
     serial_out s @ concat (replicate (count_list inp newline) (''XXX256YYY256ZZZ'' @ [newline]))
   \<and> match_reply ''XXX256YYY256ZZZ'' = Some ''256''
   \<and> serial_out (main_loop led s [newline]) = serial_out s @ ''XXX256YYY256ZZZ'' @ [newline]
   \<and> serial_out (report c s) =
       serial_out s @ ''XXX'' @ show_int c @ ''YYY'' @ show_int c @ ''ZZZ'' @ [newline]
   \<and> (0 \<le> c \<longrightarrow>
        match_reply (''XXX'' @ show_int c @ ''YYY'' @ show_int c @ ''ZZZ'') = Some (show_int c))
   \<and> (cout_buf s = [] \<longrightarrow>
        usb_tx (main_loop led s inp) =
          usb_tx s @ concat (replicate (count_list inp newline) (''XXX256YYY256ZZZ'' @ [newline]))
        \<and> cout_buf (main_loop led s inp) = []
        \<and> usb_tx (main_loop led s [newline]) = usb_tx s @ ''XXX256YYY256ZZZ'' @ [newline])
   \<and> usb_tx (measure_and_report led line s) =
       usb_tx s @ cout_buf s @ ''XXX256YYY256ZZZ'' @ [newline]
   \<and> cout_buf (measure_and_report led line s) = []
   \<and> usb_tx (report c s) =
       usb_tx s @ cout_buf s @ ''XXX'' @ show_int c @ ''YYY'' @ show_int c @ ''ZZZ'' @ [newline]
   \<and> cout_buf (report c s) = []"
proof -
  have pat: "0 \<le> c \<longrightarrow>
      match_reply (''XXX'' @ show_int c @ ''YYY'' @ show_int c @ ''ZZZ'') = Some (show_int c)"
    using reply_matches_pattern by blast
  have tx: "cout_buf s = [] \<longrightarrow>
        usb_tx (main_loop led s inp) =
          usb_tx s @ concat (replicate (count_list inp newline) (''XXX256YYY256ZZZ'' @ [newline]))
        \<and> cout_buf (main_loop led s inp) = []
        \<and> usb_tx (main_loop led s [newline]) = usb_tx s @ ''XXX256YYY256ZZZ'' @ [newline]"
    by (simp add: usb_tx_main_loop cout_buf_main_loop)
  from pat tx show ?thesis
    by (simp add: serial_out_main_loop match_256 report_out report_tx cycle_tx)
qed

theorem one_reply_per_line_witness:
  "(0 :: int) \<le> 256
   \<and> cout_buf rp2040_idle = []
   \<and> match_reply (''XXX'' @ show_int 256 @ ''YYY'' @ show_int 256 @ ''ZZZ'') = Some ''256''
   \<and> usb_tx (main_loop 25 rp2040_idle (''go'' @ [newline] @ [newline])) =
       ''XXX256YYY256ZZZ'' @ [newline] @ ''XXX256YYY256ZZZ'' @ [newline]
   \<and> cout_buf (main_loop 25 rp2040_idle (''go'' @ [newline] @ [newline])) = []"
proof -
  have nonneg: "(0 :: int) \<le> 256"
    by simp
  have empty: "cout_buf rp2040_idle = []" and sent: "usb_tx rp2040_idle = []"
    by (simp_all add: rp2040_idle_def)
  have two: "count_list (''go'' @ [newline] @ [newline]) newline = 2"
    by (simp add: newline_def)
  note r = one_reply_per_line [of 25 rp2040_idle "''go'' @ [newline] @ [newline]" 256]
  from r empty have out: "usb_tx (main_loop 25 rp2040_idle (''go'' @ [newline] @ [newline])) =
      usb_tx rp2040_idle
        @ concat (replicate (count_list (''go'' @ [newline] @ [newline]) newline)
            (''XXX256YYY256ZZZ'' @ [newline]))"
    and buf: "cout_buf (main_loop 25 rp2040_idle (''go'' @ [newline] @ [newline])) = []"
    by blast+
  from r nonneg have pat:
    "match_reply (''XXX'' @ show_int 256 @ ''YYY'' @ show_int 256 @ ''ZZZ'') = Some (show_int 256)"
    by blast
  from out have "usb_tx (main_loop 25 rp2040_idle (''go'' @ [newline] @ [newline])) =
      ''XXX256YYY256ZZZ'' @ [newline] @ ''XXX256YYY256ZZZ'' @ [newline]"
    unfolding two sent by (simp add: numeral_2_eq_2)
  with nonneg empty buf pat show ?thesis
    by (simp only: show_int_256 simp_thms)
qed

text \<open>
  C3, as stated: both trigger outputs go high before the critical section begins
  (before the interrupt mask is saved) and go low after it has ended (after the
  mask is restored). This fails: in a pass through the loop body from the idle
  state with the LED on pin 25, neither rising edge comes before the \<open>MRS\<close> of
  the save and neither falling edge comes after the \<open>MSR\<close> of the restore.
\<close>

theorem trigger_outside_critical_section_counterexample:
  "\<not> occurs_before (GPIO_PUT 25 True) MRS_PRIMASK (cycle_events 25 ''go'' rp2040_idle)
   \<and> \<not> occurs_before (GPIO_PUT 0 True) MRS_PRIMASK (cycle_events 25 ''go'' rp2040_idle)
   \<and> \<not> occurs_before (MSR_PRIMASK 0) (GPIO_PUT 0 False) (cycle_events 25 ''go'' rp2040_idle)
   \<and> \<not> occurs_before (MSR_PRIMASK 0) (GPIO_PUT 25 False) (cycle_events 25 ''go'' rp2040_idle)"
  by (simp add: cycle_events_eq occurs_before_def rp2040_idle_def dropWhile_append)

text \<open>
  C3, amended: \<open>main\<close> saves and disables interrupts first and calls
  \<open>unrolled_loop\<close> afterwards, so the edges lie inside the critical section: both
  outputs go high after interrupts have been disabled and before the workload
  starts, and both go low after the counter has been stored and before the mask is
  restored. These are the only times the outputs are driven in a cycle: the events
  of a cycle are the save, LED high, GPIO 0 high, the workload, GPIO 0 low, LED
  low, the restore, and nothing else.
\<close>

theorem trigger_inside_critical_section:
  "occurs_before CPSID_i (GPIO_PUT led True) (cycle_events led line s)
   \<and> occurs_before CPSID_i (GPIO_PUT 0 True) (cycle_events led line s)
   \<and> occurs_before (GPIO_PUT 0 True) (EXEC (LDR_r0 0)) (cycle_events led line s)
   \<and> occurs_before (EXEC STR_r0_cnt) (GPIO_PUT 0 False) (cycle_events led line s)
   \<and> occurs_before (GPIO_PUT 0 False) (MSR_PRIMASK (fst (save_and_disable_interrupts s))) (cycle_events led line s)
   \<and> occurs_before (GPIO_PUT led False) (MSR_PRIMASK (fst (save_and_disable_interrupts s))) (cycle_events led line s)
   \<and> occurs_before (GPIO_PUT led True) (EXEC (LDR_r0 0)) (cycle_events led line s)
   \<and> occurs_before (EXEC STR_r0_cnt) (GPIO_PUT led False) (cycle_events led line s)
   \<and> cycle_events led line s =
       [MRS_PRIMASK, CPSID_i]
         @ [GPIO_PUT led True, GPIO_PUT 0 True]
         @ map EXEC ([LDR_r0 0] @ add256 @ [STR_r0_cnt])
         @ [GPIO_PUT 0 False, GPIO_PUT led False]
         @ [MSR_PRIMASK (fst (save_and_disable_interrupts s))]"
  by (simp add: cycle_events_eq occurs_before_def save_and_disable_interrupts_def Let_def
      dropWhile_append add256_rep)

text \<open>
  C4. Without \<open>ALWAYS_SUCCESS\<close>, on a run that starts with PB4 and PB5 low: the
  program loads the byte at \<open>0x8000\<close>; it loads the byte at \<open>0x480B\<close> exactly when
  the first byte is \<open>0x82\<close> or \<open>0xAC\<close>; PB4 ends high exactly when the first byte
  is neither of the two or the option byte is \<open>0x55\<close> (the path through
  \<open>rdp_check\<close>); PB5 ends high exactly when the first byte is one of the two and
  the option byte is not \<open>0x55\<close> (the path through \<open>enter_app\<close>). The arm
  \<open>rdp_check\<close> sets PB4 and nothing else, the arm \<open>enter_app\<close> sets PB5 and
  nothing else.
\<close>

theorem branch_decision:
  assumes "stm8l_h_ok h"
    and "\<not> bit (mem s (PB_ODR h)) 4" and "\<not> bit (mem s (PB_ODR h)) 5"
  shows "loads (run_events h False s) =
           [PB_DDR h, PB_CR1 h, PB_CR2 h, PB_ODR h, 0x8000]
             @ (if mem s 0x8000 = 0x82 \<or> mem s 0x8000 = 0xAC then [0x480B] else [])
             @ [PB_ODR h]
         \<and> (bit (mem (main_stm8l h False s) (PB_ODR h)) 4 \<longleftrightarrow>
              (mem s 0x8000 = 0x82 \<or> mem s 0x8000 = 0xAC \<longrightarrow> mem s 0x480B = 0x55))
         \<and> (bit (mem (main_stm8l h False s) (PB_ODR h)) 5 \<longleftrightarrow>
              (mem s 0x8000 = 0x82 \<or> mem s 0x8000 = 0xAC) \<and> mem s 0x480B \<noteq> 0x55)
         \<and> mem (rdp_check s') = (mem s')(PB_ODR h := set_bit 4 (mem s' (PB_ODR h)))
         \<and> mem (enter_app s') = (mem s')(PB_ODR h := set_bit 5 (mem s' (PB_ODR h)))"
proof -
  note f = stm8l_h_ok_facts [OF assms(1)]
  from assms have low: "\<not> bit (mem s 0x5005) 4" "\<not> bit (mem s 0x5005) 5"
    by (simp_all add: f)
  have "loads (run_events h False s) =
           [PB_DDR h, PB_CR1 h, PB_CR2 h, PB_ODR h, 0x8000]
             @ (if mem s 0x8000 = 0x82 \<or> mem s 0x8000 = 0xAC then [0x480B] else [])
             @ [PB_ODR h]"
    by (simp add: run_events_eq [OF assms(1)] f)
  moreover have "bit (mem (main_stm8l h False s) (PB_ODR h)) 4 \<longleftrightarrow>
              (mem s 0x8000 = 0x82 \<or> mem s 0x8000 = 0xAC \<longrightarrow> mem s 0x480B = 0x55)"
    using low by (auto simp: main_odr [OF assms(1)] f bit_set_bit_iff bit_or_iff)
  moreover have "bit (mem (main_stm8l h False s) (PB_ODR h)) 5 \<longleftrightarrow>
              (mem s 0x8000 = 0x82 \<or> mem s 0x8000 = 0xAC) \<and> mem s 0x480B \<noteq> 0x55"
    using low by (auto simp: main_odr [OF assms(1)] f bit_set_bit_iff bit_or_iff)
  moreover have "mem (rdp_check s') = (mem s')(PB_ODR h := set_bit 4 (mem s' (PB_ODR h)))"
    by (simp add: rdp_check_def asm_done_def nop_def bset_sel f)
  moreover have "mem (enter_app s') = (mem s')(PB_ODR h := set_bit 5 (mem s' (PB_ODR h)))"
    by (simp add: enter_app_def asm_done_def nop_def bset_sel f)
  ultimately show ?thesis
    by blast
qed

text \<open>
  The three runs named in C4, on the addresses of the STM8L15x: (\<open>0xAC\<close>, \<open>0x55\<close>)
  ends with PB4 high and PB5 low, (\<open>0xAC\<close>, \<open>0x00\<close>) with PB5 high and PB4 low,
  (\<open>0x00\<close>, any option byte, here \<open>0x55\<close>) with PB4 high and PB5 low.
\<close>

theorem branch_decision_witness:
  "stm8l_h_ok stm8l15x_h
   \<and> \<not> bit (mem (stm8_reset 0xAC 0x55) (PB_ODR stm8l15x_h)) 4
   \<and> \<not> bit (mem (stm8_reset 0xAC 0x55) (PB_ODR stm8l15x_h)) 5
   \<and> bit (mem (main_stm8l stm8l15x_h False (stm8_reset 0xAC 0x55)) 0x5005) 4
   \<and> \<not> bit (mem (main_stm8l stm8l15x_h False (stm8_reset 0xAC 0x55)) 0x5005) 5
   \<and> \<not> bit (mem (main_stm8l stm8l15x_h False (stm8_reset 0xAC 0x00)) 0x5005) 4
   \<and> bit (mem (main_stm8l stm8l15x_h False (stm8_reset 0xAC 0x00)) 0x5005) 5
   \<and> bit (mem (main_stm8l stm8l15x_h False (stm8_reset 0x00 0x55)) 0x5005) 4
   \<and> \<not> bit (mem (main_stm8l stm8l15x_h False (stm8_reset 0x00 0x55)) 0x5005) 5"
proof -
  have ok: "stm8l_h_ok stm8l15x_h"
    by (simp add: stm8l_h_ok_def stm8l15x_h_def)
  have low: "\<not> bit (mem (stm8_reset b ob) (PB_ODR stm8l15x_h)) 4"
      "\<not> bit (mem (stm8_reset b ob) (PB_ODR stm8l15x_h)) 5" for b ob
    by (simp_all add: stm8_reset_def stm8l15x_h_def)
  have at: "mem (stm8_reset b ob) 0x8000 = b" "mem (stm8_reset b ob) 0x480B = ob" for b ob
    by (simp_all add: stm8_reset_def)
  have odr: "PB_ODR stm8l15x_h = 0x5005"
    by (simp add: stm8l15x_h_def)
  show ?thesis
    using ok low [where b = "0xAC" and ob = "0x55"]
      branch_decision [OF ok low [where b = "0xAC" and ob = "0x55"]]
      branch_decision [OF ok low [where b = "0xAC" and ob = "0x00"]]
      branch_decision [OF ok low [where b = "0x00" and ob = "0x55"]]
    by (simp add: at odr)
qed

text \<open>
  C5. Without \<open>ALWAYS_SUCCESS\<close>, on a run that starts with PB1 low: PB1 goes from
  low to high exactly once, at the ninth access of the run (position 8, the store
  of \<open>PB_ODR |= TRIG_PIN\<close>); PB4 and PB5 together go from low to high at most
  once; every such edge, and every load from \<open>0x8000\<close> or \<open>0x480B\<close>, comes after
  the edge of PB1.
\<close>

theorem trigger_then_one_result_pin:
  assumes "stm8l_h_ok h" and "\<not> bit (mem s (PB_ODR h)) 1"
  shows "pin_rises (PB_ODR h) 1 0 (mem s (PB_ODR h)) (run_events h False s) = [8]
         \<and> length (pin_rises (PB_ODR h) 4 0 (mem s (PB_ODR h)) (run_events h False s))
             + length (pin_rises (PB_ODR h) 5 0 (mem s (PB_ODR h)) (run_events h False s)) \<le> 1
         \<and> (\<forall>p \<in> set (pin_rises (PB_ODR h) 4 0 (mem s (PB_ODR h)) (run_events h False s))
                 \<union> set (pin_rises (PB_ODR h) 5 0 (mem s (PB_ODR h)) (run_events h False s))
                 \<union> set (load_positions [0x8000, 0x480B] 0 (run_events h False s)). 8 < p)"
proof -
  note f = stm8l_h_ok_facts [OF assms(1)]
  from assms have low: "\<not> bit (mem s 0x5005) 1"
    by (simp add: f)
  have 1: "pin_rises (PB_ODR h) 1 0 (mem s (PB_ODR h)) (run_events h False s) = [8]"
    using low by (simp add: run_events_eq [OF assms(1)] f bit_set_bit_iff bit_or_iff)
  have 2: "length (pin_rises (PB_ODR h) 4 0 (mem s (PB_ODR h)) (run_events h False s))
             + length (pin_rises (PB_ODR h) 5 0 (mem s (PB_ODR h)) (run_events h False s)) \<le> 1"
    by (simp add: run_events_eq [OF assms(1)] f bit_set_bit_iff bit_or_iff)
  have 3: "\<forall>p \<in> set (pin_rises (PB_ODR h) 4 0 (mem s (PB_ODR h)) (run_events h False s)). 8 < p"
    by (simp add: run_events_eq [OF assms(1)] f bit_set_bit_iff bit_or_iff)
  have 4: "\<forall>p \<in> set (pin_rises (PB_ODR h) 5 0 (mem s (PB_ODR h)) (run_events h False s)). 8 < p"
    by (simp add: run_events_eq [OF assms(1)] f bit_set_bit_iff bit_or_iff)
  have 5: "\<forall>p \<in> set (load_positions [0x8000, 0x480B] 0 (run_events h False s)). 8 < p"
    by (simp add: run_events_eq [OF assms(1)] f)
  from 1 2 3 4 5 show ?thesis
    by blast
qed

theorem trigger_then_one_result_pin_witness:
  "stm8l_h_ok stm8l15x_h
   \<and> \<not> bit (mem (stm8_reset 0xAC 0x00) (PB_ODR stm8l15x_h)) 1
   \<and> pin_rises 0x5005 1 0 0 (run_events stm8l15x_h False (stm8_reset 0xAC 0x00)) = [8]
   \<and> length (pin_rises 0x5005 4 0 0 (run_events stm8l15x_h False (stm8_reset 0xAC 0x00)))
       + length (pin_rises 0x5005 5 0 0 (run_events stm8l15x_h False (stm8_reset 0xAC 0x00))) \<le> 1"
proof -
  have ok: "stm8l_h_ok stm8l15x_h"
    by (simp add: stm8l_h_ok_def stm8l15x_h_def)
  have low: "\<not> bit (mem (stm8_reset 0xAC 0x00) (PB_ODR stm8l15x_h)) 1"
    by (simp add: stm8_reset_def stm8l15x_h_def)
  have v: "PB_ODR stm8l15x_h = 0x5005" "mem (stm8_reset 0xAC 0x00) 0x5005 = 0"
    by (simp_all add: stm8_reset_def stm8l15x_h_def)
  show ?thesis
    using ok low trigger_then_one_result_pin [OF ok low]
    by (simp add: v)
qed

text \<open>
  C6. One pass through the loop body reads the mask once (\<open>MRS\<close>), disables
  interrupts once (\<open>CPSID\<close>) and writes the mask once (\<open>MSR\<close>), in this order; the
  value written is the snapshot that the save returned; interrupts are disabled
  after the save; restoring the snapshot gives back the mask of before the save,
  whatever happened in between; and after the pass the mask is what it was before.
  The body has a single path from the save to the restore.
\<close>

theorem primask_save_restore_paired:
  "filter is_primask_event (cycle_events led line s) =
     [MRS_PRIMASK, CPSID_i, MSR_PRIMASK (fst (save_and_disable_interrupts s))]
   \<and> PRIMASK (snd (save_and_disable_interrupts s))
   \<and> PRIMASK (restore_interrupts (fst (save_and_disable_interrupts s)) s') = PRIMASK s
   \<and> PRIMASK (measure_and_report led line s) = PRIMASK s"
  by (simp add: cycle_events_eq save_and_disable_interrupts_def Let_def emit_def restore_interrupts_def
      measure_and_report_eq)

text \<open>
  C7. The events of \<open>unrolled_loop\<close> are, in this order: LED high, GPIO 0 high,
  the instructions of the workload, GPIO 0 low, LED low; and a measurement cycle
  is the save of the mask, these events, and the restore.
\<close>

theorem trigger_edge_order:
  "drop (length (events s)) (events (snd (unrolled_loop led s))) =
     [GPIO_PUT led True] @ [GPIO_PUT 0 True]
       @ map EXEC ([LDR_r0 0] @ add256 @ [STR_r0_cnt])
       @ [GPIO_PUT 0 False] @ [GPIO_PUT led False]
   \<and> cycle_events led line s =
       [MRS_PRIMASK, CPSID_i] @ drop (length (events s)) (events (snd (unrolled_loop led s)))
         @ [MSR_PRIMASK (fst (save_and_disable_interrupts s))]"
  by (simp add: unrolled_loop_eq cycle_events_eq add256_rep save_and_disable_interrupts_def Let_def)

text \<open>
  C8. When the loop is entered with nothing left in the output buffer, sending the
  same line K times makes the probe send K times the same reply line to the host,
  whatever else the state held, and leaves the buffer empty; and what one cycle
  sends after the buffered characters is the same reply for every line and every
  earlier state.
\<close>

theorem repeated_command_same_reply:
  assumes "newline \<notin> set line" and "cout_buf s = []"
  shows "usb_tx (main_loop led s (concat (replicate K (line @ [newline])))) =
           usb_tx s @ concat (replicate K (''XXX256YYY256ZZZ'' @ [newline]))
         \<and> cout_buf (main_loop led s (concat (replicate K (line @ [newline])))) = []
         \<and> usb_tx (measure_and_report led line' s') =
             usb_tx s' @ cout_buf s' @ ''XXX256YYY256ZZZ'' @ [newline]
         \<and> cout_buf (measure_and_report led line' s') = []
         \<and> serial_out (main_loop led s (concat (replicate K (line @ [newline])))) =
             serial_out s @ concat (replicate K (''XXX256YYY256ZZZ'' @ [newline]))
         \<and> serial_out (measure_and_report led line' s') =
             serial_out s' @ ''XXX256YYY256ZZZ'' @ [newline]"
proof -
  have "count_list (concat (replicate K (line @ [newline]))) newline = K"
    using assms(1) by (induction K) (simp_all add: count_list_0_iff)
  then show ?thesis
    by (simp add: serial_out_main_loop serial_out_cycle usb_tx_main_loop [OF assms(2)]
        cout_buf_main_loop [OF assms(2)] cycle_tx)
qed

theorem repeated_command_same_reply_witness:
  "newline \<notin> set ''go''
   \<and> cout_buf rp2040_idle = []
   \<and> usb_tx (main_loop 25 rp2040_idle (concat (replicate 3 (''go'' @ [newline])))) =
       ''XXX256YYY256ZZZ'' @ [newline] @ ''XXX256YYY256ZZZ'' @ [newline] @ ''XXX256YYY256ZZZ'' @ [newline]
   \<and> cout_buf (main_loop 25 rp2040_idle (concat (replicate 3 (''go'' @ [newline])))) = []"
proof -
  have n: "newline \<notin> set ''go''"
    by (simp add: newline_def)
  have empty: "cout_buf rp2040_idle = []" and sent: "usb_tx rp2040_idle = []"
    by (simp_all add: rp2040_idle_def)
  have three: "concat (replicate 3 (''XXX256YYY256ZZZ'' @ [newline]))
      = ''XXX256YYY256ZZZ'' @ [newline] @ ''XXX256YYY256ZZZ'' @ [newline] @ ''XXX256YYY256ZZZ'' @ [newline]"
    by (simp add: numeral_3_eq_3)
  note r = repeated_command_same_reply [OF n empty, of 25 3]
  from r have "usb_tx (main_loop 25 rp2040_idle (concat (replicate 3 (''go'' @ [newline])))) =
      usb_tx rp2040_idle @ concat (replicate 3 (''XXX256YYY256ZZZ'' @ [newline]))"
    and buf: "cout_buf (main_loop 25 rp2040_idle (concat (replicate 3 (''go'' @ [newline])))) = []"
    by blast+
  then have "usb_tx (main_loop 25 rp2040_idle (concat (replicate 3 (''go'' @ [newline])))) =
      ''XXX256YYY256ZZZ'' @ [newline] @ ''XXX256YYY256ZZZ'' @ [newline] @ ''XXX256YYY256ZZZ'' @ [newline]"
    unfolding three sent by simp
  with n empty buf show ?thesis
    by (simp only: simp_thms)
qed

text \<open>
  C9. Built with \<open>ALWAYS_SUCCESS\<close>, the program ends with bit 4 of the byte at
  \<open>0x5005\<close> (PB4 of the output register) set, for every header, flash content,
  option byte and starting state; the store that sets it is the last access of the
  run and comes after everything the build without the option does.
\<close>

theorem always_success_asserts_pb4:
  "bit (mem (main_stm8l h True s) 0x5005) 4
   \<and> bus (main_stm8l h True s) =
       bus (main_stm8l h False s)
         @ [Load 0x5005, Store 0x5005 (mem (main_stm8l h True s) 0x5005)]"
  by (simp add: main_always_success bit_set_bit_iff)

text \<open>
  C10. In both builds the three configuration registers of port B end as their
  old value ORed with the mask of PB1, PB4 and PB5, and in these three registers
  and in the output register the bits of PB0, PB2, PB3, PB6 and PB7 are what they
  were before the run. The example run starts with \<open>0x81\<close> in every byte, so with
  PB0 and PB7 set and PB2, PB3 and PB6 clear in all four registers.
\<close>

theorem other_port_b_pins_unchanged:
  assumes "stm8l_h_ok h"
  shows "mem (main_stm8l h b s) (PB_DDR h) = mem s (PB_DDR h) OR (TRIG_PIN OR SUCCESS_PIN OR EXPECTED_PIN)
         \<and> mem (main_stm8l h b s) (PB_CR1 h) = mem s (PB_CR1 h) OR (TRIG_PIN OR SUCCESS_PIN OR EXPECTED_PIN)
         \<and> mem (main_stm8l h b s) (PB_CR2 h) = mem s (PB_CR2 h) OR (TRIG_PIN OR SUCCESS_PIN OR EXPECTED_PIN)
         \<and> (\<forall>r \<in> {PB_DDR h, PB_CR1 h, PB_CR2 h, PB_ODR h}. \<forall>n \<in> {0, 2, 3, 6, 7}.
               bit (mem (main_stm8l h b s) r) n = bit (mem s r) n)"
proof -
  note f = stm8l_h_ok_facts [OF assms]
  note cfg = main_cfg [OF assms]
  have odr: "bit (mem (main_stm8l h b s) (PB_ODR h)) n = bit (mem s (PB_ODR h)) n"
    if "n \<in> {0, 2, 3, 6, 7}" for n
    using that
    by (cases b) (auto simp: main_always_success main_odr [OF assms] f bit_set_bit_iff bit_or_iff)
  have reg: "bit (w OR 0x32 :: u8) n = bit w n" if "n \<in> {0, 2, 3, 6, 7}" for w n
    using that by (auto simp: bit_or_iff)
  show ?thesis
    using odr reg by (simp add: cfg pin_masks)
qed

theorem other_port_b_pins_unchanged_witness:
  "stm8l_h_ok stm8l15x_h
   \<and> mem (main_stm8l stm8l15x_h False (stm8_reset 0xAC 0x55\<lparr>mem := (\<lambda>a. 0x81)\<rparr>)) 0x5007 = 0xB3
   \<and> mem (main_stm8l stm8l15x_h False (stm8_reset 0xAC 0x55\<lparr>mem := (\<lambda>a. 0x81)\<rparr>)) 0x5008 = 0xB3
   \<and> mem (main_stm8l stm8l15x_h False (stm8_reset 0xAC 0x55\<lparr>mem := (\<lambda>a. 0x81)\<rparr>)) 0x5009 = 0xB3
   \<and> bit (mem (main_stm8l stm8l15x_h False (stm8_reset 0xAC 0x55\<lparr>mem := (\<lambda>a. 0x81)\<rparr>)) 0x5005) 0
   \<and> \<not> bit (mem (main_stm8l stm8l15x_h False (stm8_reset 0xAC 0x55\<lparr>mem := (\<lambda>a. 0x81)\<rparr>)) 0x5005) 2
   \<and> \<not> bit (mem (main_stm8l stm8l15x_h False (stm8_reset 0xAC 0x55\<lparr>mem := (\<lambda>a. 0x81)\<rparr>)) 0x5005) 3
   \<and> \<not> bit (mem (main_stm8l stm8l15x_h False (stm8_reset 0xAC 0x55\<lparr>mem := (\<lambda>a. 0x81)\<rparr>)) 0x5005) 6
   \<and> bit (mem (main_stm8l stm8l15x_h False (stm8_reset 0xAC 0x55\<lparr>mem := (\<lambda>a. 0x81)\<rparr>)) 0x5005) 7"
proof -
  have ok: "stm8l_h_ok stm8l15x_h"
    by (simp add: stm8l_h_ok_def stm8l15x_h_def)
  have v: "PB_ODR stm8l15x_h = 0x5005" "PB_DDR stm8l15x_h = 0x5007"
      "PB_CR1 stm8l15x_h = 0x5008" "PB_CR2 stm8l15x_h = 0x5009"
      "mem (stm8_reset 0xAC 0x55\<lparr>mem := (\<lambda>a. 0x81)\<rparr>) = (\<lambda>a. 0x81)"
    by (simp_all add: stm8l15x_h_def)
  show ?thesis
    using ok
      other_port_b_pins_unchanged [OF ok, of False "stm8_reset 0xAC 0x55\<lparr>mem := (\<lambda>a. 0x81)\<rparr>"]
    by (simp add: v pin_masks)
qed

end
